theory Spec2Isabelle
  imports Complex_Main
begin

section \<open>The system monitor of \<^verbatim>\<open>sys_monitor_gui.py\<close>\<close>

text \<open>
  The development embeds the metric collection, the rate formatting, the bounded CPU
  history and the periodic update of \<^verbatim>\<open>SystemMonitorApp\<close>.

  Conventions of the embedding:
  \<^item> a finite Python \<^verbatim>\<open>float\<close> is represented by the real number it denotes (type
    \<^typ>\<open>real\<close>); the rounding of float arithmetic, infinities, NaN and the negative zero
    are outside the model;
  \<^item> a Python \<^verbatim>\<open>int\<close> is an \<^typ>\<open>int\<close>;
  \<^item> an exception is a value of the type \<open>exn\<close>; a call that may raise returns
    \<open>exn + 'a\<close>, or the exception (if any) next to the state it leaves behind;
  \<^item> the attributes of \<^verbatim>\<open>self\<close> that the collection mutates are a record that is passed
    in and returned, also when the call raises: an exception does not undo assignments.
\<close>

subsection \<open>Configuration\<close>

definition UPDATE_INTERVAL_MS :: nat where
  "UPDATE_INTERVAL_MS = 1000"

definition CPU_HISTORY_LEN :: nat where
  "CPU_HISTORY_LEN = 60"

subsection \<open>Fixed-point formatting of a float (\<^verbatim>\<open>format(x, '.pf')\<close>)\<close>

text \<open>
  Python renders \<^verbatim>\<open>f"{x:.pf}"\<close> from the exact value of the float: the magnitude is rounded
  to \<open>p\<close> decimals, ties going to the even neighbour, and the sign of the float is kept
  even when the magnitude rounds to zero.
\<close>

definition round_half_even :: "real \<Rightarrow> int" where
  "round_half_even x =
     (let f = \<lfloor>x\<rfloor>; d = x - of_int f
      in if d < 1 / 2 then f
         else if 1 / 2 < d then f + 1
         else if even f then f else f + 1)"

text \<open>The digit of a number below 10; every use passes such a number.\<close>

definition digit_char :: "nat \<Rightarrow> char" where
  "digit_char d = ''0123456789'' ! (d mod 10)"

fun str_nat :: "nat \<Rightarrow> string" where
  "str_nat n = (if n < 10 then [digit_char n] else str_nat (n div 10) @ [digit_char (n mod 10)])"

declare str_nat.simps [simp del]

fun frac_digits :: "nat \<Rightarrow> nat \<Rightarrow> string" where
  "frac_digits 0 n = []"
| "frac_digits (Suc p) n = frac_digits p (n div 10) @ [digit_char (n mod 10)]"

definition format_f :: "nat \<Rightarrow> real \<Rightarrow> string" where
  "format_f p x =
     (let q = nat (round_half_even (\<bar>x\<bar> * 10 ^ p))
      in (if x < 0 then ''-'' else '''')
         @ str_nat (q div 10 ^ p)
         @ (if p = 0 then '''' else ''.'' @ frac_digits p (q mod 10 ^ p)))"

subsection \<open>\<^verbatim>\<open>SystemMonitorApp._format_bytes\<close>\<close>

definition format_bytes :: "real \<Rightarrow> string" where
  "format_bytes bps =
     (if bps < 1024 then format_f 0 bps @ '' B/s''
      else if bps < 1024 ^ 2 then format_f 1 (bps / 1024) @ '' KB/s''
      else format_f 2 (bps / (1024 ^ 2)) @ '' MB/s'')"

subsection \<open>The bounded history (\<^verbatim>\<open>collections.deque\<close> with \<^verbatim>\<open>maxlen\<close>)\<close>

record 'a deque =
  items :: "'a list"
  maxlen :: nat

text \<open>
  \<^verbatim>\<open>deque.append\<close> adds the value on the right and, when the length then exceeds
  \<^verbatim>\<open>maxlen\<close>, drops the leftmost element. \<^verbatim>\<open>deque(iterable, maxlen)\<close> appends the elements
  of the iterable one by one to an empty deque.
\<close>

definition deque_append :: "'a deque \<Rightarrow> 'a \<Rightarrow> 'a deque" where
  "deque_append d x =
     (let ys = items d @ [x]
      in d\<lparr>items := (if maxlen d < length ys then tl ys else ys)\<rparr>)"

definition deque_new :: "'a list \<Rightarrow> nat \<Rightarrow> 'a deque" where
  "deque_new xs m = foldl deque_append \<lparr>items = [], maxlen = m\<rparr> xs"

subsection \<open>Host readings and the state of the collection\<close>

datatype subsystem = Cpu | Memory | Process | Disk | Network

datatype exn =
    HostError subsystem | ZeroDivisionError | TclError | OSError | UnicodeEncodeError
  | KeyboardInterrupt | SystemExit

record disk_io =
  read_bytes :: int
  write_bytes :: int

record net_io =
  bytes_sent :: int
  bytes_recv :: int

text \<open>
  What the operating system answers during one call of \<^verbatim>\<open>_collect_metrics\<close>: the clock
  (\<^verbatim>\<open>time.time()\<close>) and the five \<^verbatim>\<open>psutil\<close> reads, \<open>None\<close> standing for a read that raises.
\<close>

record host =
  time_now :: real
  cpu_percent :: "real option"
  virtual_memory_percent :: "real option"
  pids :: "nat list option"
  disk_io_counters :: "disk_io option"
  net_io_counters :: "net_io option"

record monitor =
  cpu_history :: "real deque"
  prev_disk :: disk_io
  prev_net :: net_io
  prev_time :: real

record metrics =
  cpu :: real
  mem :: real
  proc_count :: nat
  read_bps :: real
  write_bps :: real
  sent_bps :: real
  recv_bps :: real
  timestamp :: real

subsection \<open>\<^verbatim>\<open>SystemMonitorApp.__init__\<close> (the part that sets up the collection)\<close>

definition init_monitor :: "host \<Rightarrow> exn + monitor" where
  "init_monitor h =
     (case disk_io_counters h of
        None \<Rightarrow> Inl (HostError Disk)
      | Some d \<Rightarrow>
     (case net_io_counters h of
        None \<Rightarrow> Inl (HostError Network)
      | Some n \<Rightarrow>
          Inr \<lparr>cpu_history = deque_new (replicate CPU_HISTORY_LEN 0) CPU_HISTORY_LEN,
               prev_disk = d, prev_net = n, prev_time = time_now h\<rparr>))"

subsection \<open>\<^verbatim>\<open>SystemMonitorApp._collect_metrics\<close>\<close>

text \<open>Line 183: \<^verbatim>\<open>dt = now - self.prev_time if self.prev_time else 1.0\<close>.\<close>

definition elapsed :: "real \<Rightarrow> monitor \<Rightarrow> real" where
  "elapsed now s = (if prev_time s \<noteq> 0 then now - prev_time s else 1)"

text \<open>Lines 195, 196, 203 and 204: \<^verbatim>\<open>max(0, cur - prev)\<close> on integers.\<close>

definition byte_delta :: "int \<Rightarrow> int \<Rightarrow> int" where
  "byte_delta cur prev = max 0 (cur - prev)"

text \<open>The division \<^verbatim>\<open>n / dt\<close> of an integer by a float raises when \<^verbatim>\<open>dt\<close> is zero.\<close>

definition truediv :: "int \<Rightarrow> real \<Rightarrow> exn + real" where
  "truediv n dt = (if dt = 0 then Inl ZeroDivisionError else Inr (of_int n / dt))"

definition collect_metrics :: "host \<Rightarrow> monitor \<Rightarrow> (exn + metrics) \<times> monitor" where
  "collect_metrics h s =
     (let now = time_now h;
          dt = elapsed now s;
          s1 = s\<lparr>prev_time := now\<rparr>
      in case cpu_percent h of
           None \<Rightarrow> (Inl (HostError Cpu), s1)
         | Some c \<Rightarrow>
        (case virtual_memory_percent h of
           None \<Rightarrow> (Inl (HostError Memory), s1)
         | Some m \<Rightarrow>
        (case pids h of
           None \<Rightarrow> (Inl (HostError Process), s1)
         | Some ps \<Rightarrow>
        (case disk_io_counters h of
           None \<Rightarrow> (Inl (HostError Disk), s1)
         | Some cur_disk \<Rightarrow>
        (case truediv (byte_delta (read_bytes cur_disk) (read_bytes (prev_disk s1))) dt of
           Inl e \<Rightarrow> (Inl e, s1)
         | Inr rd \<Rightarrow>
        (case truediv (byte_delta (write_bytes cur_disk) (write_bytes (prev_disk s1))) dt of
           Inl e \<Rightarrow> (Inl e, s1)
         | Inr wr \<Rightarrow>
        (let s2 = s1\<lparr>prev_disk := cur_disk\<rparr>
         in case net_io_counters h of
              None \<Rightarrow> (Inl (HostError Network), s2)
            | Some cur_net \<Rightarrow>
        (case truediv (byte_delta (bytes_sent cur_net) (bytes_sent (prev_net s2))) dt of
           Inl e \<Rightarrow> (Inl e, s2)
         | Inr sn \<Rightarrow>
        (case truediv (byte_delta (bytes_recv cur_net) (bytes_recv (prev_net s2))) dt of
           Inl e \<Rightarrow> (Inl e, s2)
         | Inr rc \<Rightarrow>
        (let s3 = s2\<lparr>prev_net := cur_net\<rparr>;
             s4 = s3\<lparr>cpu_history := deque_append (cpu_history s3) c\<rparr>
         in (Inr \<lparr>cpu = c, mem = m, proc_count = length ps,
                   read_bps = rd, write_bps = wr, sent_bps = sn, recv_bps = rc,
                   timestamp = now\<rparr>, s4)))))))))))"

subsection \<open>\<^verbatim>\<open>_update_widgets\<close>, \<^verbatim>\<open>_schedule_update\<close> and the event loop\<close>

text \<open>
  \<^verbatim>\<open>except Exception\<close> catches the exceptions of class \<^verbatim>\<open>Exception\<close>; \<^verbatim>\<open>KeyboardInterrupt\<close>
  and \<^verbatim>\<open>SystemExit\<close> derive from \<^verbatim>\<open>BaseException\<close> only and pass through it.
\<close>

fun is_Exception :: "exn \<Rightarrow> bool" where
  "is_Exception KeyboardInterrupt = False"
| "is_Exception SystemExit = False"
| "is_Exception e = True"

text \<open>\<^verbatim>\<open>round(x, n)\<close> on a float: to \<open>n\<close> decimals, ties going to the even neighbour.\<close>

definition py_round :: "nat \<Rightarrow> real \<Rightarrow> real" where
  "py_round n x = of_int (round_half_even (x * 10 ^ n)) / 10 ^ n"

text \<open>
  The attributes of the application: the state of the collection, the module flag
  \<^verbatim>\<open>MATPLOTLIB_AVAILABLE\<close>, the Tk variables, the data of the plotted line, the exceptions
  printed by the handler of \<^verbatim>\<open>_schedule_update\<close> (\<open>console\<close>), the exceptions that have
  escaped a callback and were reported by Tk (\<open>tk_reported\<close>), and the delays in
  milliseconds of the calls of \<^verbatim>\<open>_schedule_update\<close> registered with \<^verbatim>\<open>root.after\<close> and not
  yet run (\<open>after_queue\<close>).
\<close>

record app =
  mon :: monitor
  matplotlib_available :: bool
  cpu_percent_var :: real
  mem_percent_var :: real
  proc_count_var :: nat
  disk_read_var :: string
  disk_write_var :: string
  net_sent_var :: string
  net_recv_var :: string
  last_update_var :: string
  line_ydata :: "real list"
  console :: "exn list"
  tk_reported :: "exn list"
  after_queue :: "nat list"

text \<open>
  What the environment answers during one run of \<^verbatim>\<open>_schedule_update\<close>: the host readings
  of the collection; the text that \<^verbatim>\<open>time.strftime\<close> gives for the timestamp; a fault of
  the widget update, \<open>Some (k, e)\<close> when its statement number \<open>k\<close> (counted from 0) raises
  \<open>e\<close>; and a fault of the \<^verbatim>\<open>print\<close> of the handler, \<open>Some e\<close> when it raises \<open>e\<close>. The call
  of \<^verbatim>\<open>root.after\<close> is taken to succeed.
\<close>

record tick =
  tick_host :: host
  strftime_text :: string
  tk_fault :: "(nat \<times> exn) option"
  print_fault :: "exn option"

text \<open>
  The statements of \<^verbatim>\<open>_update_widgets\<close> in their order (lines 239 to 252), each as the
  change it makes. \<^verbatim>\<open>draw_idle\<close> changes nothing that is modelled.
\<close>

definition widget_steps :: "string \<Rightarrow> metrics \<Rightarrow> bool \<Rightarrow> (app \<Rightarrow> app) list" where
  "widget_steps txt m mpl =
     [\<lambda>a. a\<lparr>cpu_percent_var := py_round 1 (cpu m)\<rparr>,
      \<lambda>a. a\<lparr>mem_percent_var := py_round 1 (mem m)\<rparr>,
      \<lambda>a. a\<lparr>proc_count_var := proc_count m\<rparr>,
      \<lambda>a. a\<lparr>disk_read_var := format_bytes (read_bps m)\<rparr>,
      \<lambda>a. a\<lparr>disk_write_var := format_bytes (write_bps m)\<rparr>,
      \<lambda>a. a\<lparr>net_sent_var := format_bytes (sent_bps m)\<rparr>,
      \<lambda>a. a\<lparr>net_recv_var := format_bytes (recv_bps m)\<rparr>,
      \<lambda>a. a\<lparr>last_update_var := txt\<rparr>]
     @ (if mpl
        then [\<lambda>a. a\<lparr>line_ydata := items (cpu_history (mon a))\<rparr>, \<lambda>a. a]
        else [])"

text \<open>
  The update runs the statements in order; a statement that raises makes no change and
  ends the update, the changes of the statements before it staying. The result is the
  exception raised, if any, and the application as it is then.
\<close>

definition update_widgets ::
  "(nat \<times> exn) option \<Rightarrow> string \<Rightarrow> metrics \<Rightarrow> app \<Rightarrow> exn option \<times> app" where
  "update_widgets fault txt m a =
     (let steps = widget_steps txt m (matplotlib_available a)
      in case fault of
           None \<Rightarrow> (None, fold (\<lambda>f. f) steps a)
         | Some (k, e) \<Rightarrow>
             if k < length steps then (Some e, fold (\<lambda>f. f) (take k steps) a)
             else (None, fold (\<lambda>f. f) steps a))"

definition register_after :: "app \<Rightarrow> app" where
  "register_after a = a\<lparr>after_queue := after_queue a @ [UPDATE_INTERVAL_MS]\<rparr>"

text \<open>
  \<^verbatim>\<open>_schedule_update\<close> (lines 262 to 270). The result is the exception that leaves the
  method, if any, and the application. An exception of the \<^verbatim>\<open>try\<close> block that is of class
  \<^verbatim>\<open>Exception\<close> is printed; when the \<^verbatim>\<open>print\<close> raises, or when the exception is not of that
  class, it leaves the method and \<^verbatim>\<open>root.after\<close> is not reached.
\<close>

definition schedule_update :: "tick \<Rightarrow> app \<Rightarrow> exn option \<times> app" where
  "schedule_update t a =
     (let (r, s') = collect_metrics (tick_host t) (mon a);
          a1 = a\<lparr>mon := s'\<rparr>;
          (raised, a2) =
            (case r of
               Inl e \<Rightarrow> (Some e, a1)
             | Inr m \<Rightarrow> update_widgets (tk_fault t) (strftime_text t) m a1)
      in case raised of
           None \<Rightarrow> (None, register_after a2)
         | Some e \<Rightarrow>
             if is_Exception e
             then (case print_fault t of
                     None \<Rightarrow> (None, register_after (a2\<lparr>console := console a2 @ [e]\<rparr>))
                   | Some e' \<Rightarrow> (Some e', a2))
             else (Some e, a2))"

text \<open>
  The constructor sets the variables, reads the first counters, builds the widgets and
  runs \<^verbatim>\<open>_schedule_update\<close> once; an exception leaving that run leaves the constructor.
  \<^verbatim>\<open>init_app mpl h t\<close> takes the module flag, the host's answers to the constructor's own
  reads (\<open>h\<close>) and the answers to that first update (\<open>t\<close>).
\<close>

definition init_app :: "bool \<Rightarrow> host \<Rightarrow> tick \<Rightarrow> exn + app" where
  "init_app mpl h t =
     (case init_monitor h of
        Inl e \<Rightarrow> Inl e
      | Inr s \<Rightarrow>
          (case schedule_update t
                  \<lparr>mon = s, matplotlib_available = mpl,
                   cpu_percent_var = 0, mem_percent_var = 0, proc_count_var = 0,
                   disk_read_var = ''0 B/s'', disk_write_var = ''0 B/s'',
                   net_sent_var = ''0 B/s'', net_recv_var = ''0 B/s'',
                   last_update_var = [],
                   line_ydata = (if mpl then items (cpu_history s) else []),
                   console = [], tk_reported = [], after_queue = []\<rparr> of
             (None, a) \<Rightarrow> Inr a
           | (Some e, a) \<Rightarrow> Inl e))"

text \<open>
  The event loop runs the registered calls in order, one per element of the list of the
  environment's answers, and stops when nothing is registered. Tk reports an exception
  that leaves a callback and goes on, except \<^verbatim>\<open>SystemExit\<close>, which ends the loop. The result
  is the number of calls of \<^verbatim>\<open>_schedule_update\<close> that were run, and the application.
\<close>

fun mainloop :: "tick list \<Rightarrow> app \<Rightarrow> nat \<times> app" where
  "mainloop [] a = (0, a)"
| "mainloop (t # ts) a =
     (case after_queue a of
        [] \<Rightarrow> (0, a)
      | d # ds \<Rightarrow>
          (case schedule_update t (a\<lparr>after_queue := ds\<rparr>) of
             (None, a') \<Rightarrow> (let (n, a'') = mainloop ts a' in (Suc n, a''))
           | (Some e, a') \<Rightarrow>
               if e = SystemExit then (Suc 0, a')
               else (let (n, a'') = mainloop ts (a'\<lparr>tk_reported := tk_reported a' @ [e]\<rparr>)
                     in (Suc n, a''))))"

text \<open>
  A tick whose faults the handler can deal with: the \<^verbatim>\<open>print\<close> does not raise, and what
  the widget update raises, if anything, is of class \<^verbatim>\<open>Exception\<close>.
\<close>

definition handled :: "tick \<Rightarrow> bool" where
  "handled t =
     (print_fault t = None \<and>
      (case tk_fault t of None \<Rightarrow> True | Some (k, e) \<Rightarrow> is_Exception e))"

text \<open>One turn of the event loop: the oldest registered call is taken and run.\<close>

definition turn :: "app \<Rightarrow> tick \<Rightarrow> app" where
  "turn a t = snd (schedule_update t (a\<lparr>after_queue := tl (after_queue a)\<rparr>))"

subsection \<open>Concrete readings used in the examples\<close>

definition ex_monitor :: monitor where
  "ex_monitor =
     \<lparr>cpu_history = \<lparr>items = [0, 0, 0], maxlen = 3\<rparr>,
      prev_disk = \<lparr>read_bytes = 1000, write_bytes = 2000\<rparr>,
      prev_net = \<lparr>bytes_sent = 300, bytes_recv = 400\<rparr>,
      prev_time = 100\<rparr>"

definition ex_host :: "real \<Rightarrow> host" where
  "ex_host now =
     \<lparr>time_now = now, cpu_percent = Some 150, virtual_memory_percent = Some (- 3),
      pids = Some [1, 2, 3],
      disk_io_counters = Some \<lparr>read_bytes = 1500, write_bytes = 2000\<rparr>,
      net_io_counters = Some \<lparr>bytes_sent = 300, bytes_recv = 1400\<rparr>\<rparr>"

definition ex_started :: monitor where
  "ex_started =
     \<lparr>cpu_history = deque_new (replicate CPU_HISTORY_LEN 0) CPU_HISTORY_LEN,
      prev_disk = \<lparr>read_bytes = 1500, write_bytes = 2000\<rparr>,
      prev_net = \<lparr>bytes_sent = 300, bytes_recv = 1400\<rparr>,
      prev_time = 100\<rparr>"

definition ex_host_reset :: host where
  "ex_host_reset =
     \<lparr>time_now = 102, cpu_percent = Some 150, virtual_memory_percent = Some (- 3),
      pids = Some [1, 2, 3],
      disk_io_counters = Some \<lparr>read_bytes = 10, write_bytes = 2600\<rparr>,
      net_io_counters = Some \<lparr>bytes_sent = 0, bytes_recv = 20\<rparr>\<rparr>"

definition ex_app :: app where
  "ex_app =
     \<lparr>mon = ex_monitor, matplotlib_available = True,
      cpu_percent_var = 0, mem_percent_var = 0, proc_count_var = 0,
      disk_read_var = ''0 B/s'', disk_write_var = ''0 B/s'',
      net_sent_var = ''0 B/s'', net_recv_var = ''0 B/s'',
      last_update_var = [], line_ydata = [0, 0, 0],
      console = [], tk_reported = [], after_queue = [UPDATE_INTERVAL_MS]\<rparr>"

definition ex_tick :: "real \<Rightarrow> tick" where
  "ex_tick now =
     \<lparr>tick_host = ex_host now, strftime_text = ''2025-11-18 10:00:00'',
      tk_fault = None, print_fault = None\<rparr>"

definition ex_ticks :: "tick list" where
  "ex_ticks =
     [ex_tick 101,
      (ex_tick 102)\<lparr>tk_fault := Some (4, TclError)\<rparr>,
      (ex_tick 103)\<lparr>tick_host := (ex_host 103)\<lparr>cpu_percent := None\<rparr>\<rparr>,
      ex_tick 104,
      ex_tick 105]"

definition ex_tick_print_fails :: tick where
  "ex_tick_print_fails =
     (ex_tick 101)\<lparr>tick_host := (ex_host 101)\<lparr>cpu_percent := None\<rparr>,
                    print_fault := Some UnicodeEncodeError\<rparr>"

definition ex_tick_interrupted :: tick where
  "ex_tick_interrupted = (ex_tick 101)\<lparr>tk_fault := Some (4, KeyboardInterrupt)\<rparr>"

section \<open>Properties of the collection\<close>

subsection \<open>What one call computes\<close>

lemma collect_metrics_Inr:
  assumes "fst (collect_metrics h s) = Inr m"
  obtains c v ps d n where
    "cpu_percent h = Some c" "virtual_memory_percent h = Some v" "pids h = Some ps"
    "disk_io_counters h = Some d" "net_io_counters h = Some n"
    "elapsed (time_now h) s \<noteq> 0"
    "m = \<lparr>cpu = c, mem = v, proc_count = length ps,
          read_bps = of_int (byte_delta (read_bytes d) (read_bytes (prev_disk s))) / elapsed (time_now h) s,
          write_bps = of_int (byte_delta (write_bytes d) (write_bytes (prev_disk s))) / elapsed (time_now h) s,
          sent_bps = of_int (byte_delta (bytes_sent n) (bytes_sent (prev_net s))) / elapsed (time_now h) s,
          recv_bps = of_int (byte_delta (bytes_recv n) (bytes_recv (prev_net s))) / elapsed (time_now h) s,
          timestamp = time_now h\<rparr>"
  using assms
  by (auto simp: collect_metrics_def Let_def truediv_def split: option.splits if_splits)

lemma collect_metrics_ok:
  assumes "cpu_percent h = Some c" "virtual_memory_percent h = Some v" "pids h = Some ps"
    "disk_io_counters h = Some d" "net_io_counters h = Some n"
    "elapsed (time_now h) s \<noteq> 0"
  shows "collect_metrics h s =
    (Inr \<lparr>cpu = c, mem = v, proc_count = length ps,
          read_bps = of_int (byte_delta (read_bytes d) (read_bytes (prev_disk s))) / elapsed (time_now h) s,
          write_bps = of_int (byte_delta (write_bytes d) (write_bytes (prev_disk s))) / elapsed (time_now h) s,
          sent_bps = of_int (byte_delta (bytes_sent n) (bytes_sent (prev_net s))) / elapsed (time_now h) s,
          recv_bps = of_int (byte_delta (bytes_recv n) (bytes_recv (prev_net s))) / elapsed (time_now h) s,
          timestamp = time_now h\<rparr>,
     \<lparr>cpu_history = deque_append (cpu_history s) c, prev_disk = d, prev_net = n,
      prev_time = time_now h\<rparr>)"
  using assms by (simp add: collect_metrics_def Let_def truediv_def)

lemma collect_metrics_rates:
  assumes "fst (collect_metrics h s) = Inr m"
    and "disk_io_counters h = Some d" and "net_io_counters h = Some n"
  shows "read_bps m = of_int (byte_delta (read_bytes d) (read_bytes (prev_disk s))) / elapsed (time_now h) s"
    and "write_bps m = of_int (byte_delta (write_bytes d) (write_bytes (prev_disk s))) / elapsed (time_now h) s"
    and "sent_bps m = of_int (byte_delta (bytes_sent n) (bytes_sent (prev_net s))) / elapsed (time_now h) s"
    and "recv_bps m = of_int (byte_delta (bytes_recv n) (bytes_recv (prev_net s))) / elapsed (time_now h) s"
  using assms by (auto elim!: collect_metrics_Inr)

lemma byte_delta_nonneg: "0 \<le> byte_delta cur prev"
  by (simp add: byte_delta_def)

lemma byte_delta_mono: "prev \<le> cur \<Longrightarrow> byte_delta cur prev = cur - prev"
  by (simp add: byte_delta_def)

lemma byte_delta_reset: "cur < prev \<Longrightarrow> byte_delta cur prev = 0"
  by (simp add: byte_delta_def)

subsection \<open>Rates from counters that do not decrease\<close>

text \<open>
  C1 (as amended). When a call of \<^verbatim>\<open>_collect_metrics\<close> returns and none of the four
  cumulative counters is below the stored reading, each rate of the result is exactly
  \<open>(current - previous) / dt\<close>, where \<open>dt\<close> is the elapsed time the code computes
  (\<^const>\<open>elapsed\<close>); the four rates are non-negative whenever that \<open>dt\<close> is positive.
\<close>

theorem rates_of_nondecreasing_counters:
  assumes "fst (collect_metrics h s) = Inr m"
    and "disk_io_counters h = Some d" and "net_io_counters h = Some n"
    and "read_bytes (prev_disk s) \<le> read_bytes d"
    and "write_bytes (prev_disk s) \<le> write_bytes d"
    and "bytes_sent (prev_net s) \<le> bytes_sent n"
    and "bytes_recv (prev_net s) \<le> bytes_recv n"
  shows "read_bps m = of_int (read_bytes d - read_bytes (prev_disk s)) / elapsed (time_now h) s
       \<and> write_bps m = of_int (write_bytes d - write_bytes (prev_disk s)) / elapsed (time_now h) s
       \<and> sent_bps m = of_int (bytes_sent n - bytes_sent (prev_net s)) / elapsed (time_now h) s
       \<and> recv_bps m = of_int (bytes_recv n - bytes_recv (prev_net s)) / elapsed (time_now h) s
       \<and> (0 < elapsed (time_now h) s \<longrightarrow>
            0 \<le> read_bps m \<and> 0 \<le> write_bps m \<and> 0 \<le> sent_bps m \<and> 0 \<le> recv_bps m)"
proof -
  note r = collect_metrics_rates [OF assms(1-3)]
  have rates: "read_bps m = of_int (read_bytes d - read_bytes (prev_disk s)) / elapsed (time_now h) s"
    "write_bps m = of_int (write_bytes d - write_bytes (prev_disk s)) / elapsed (time_now h) s"
    "sent_bps m = of_int (bytes_sent n - bytes_sent (prev_net s)) / elapsed (time_now h) s"
    "recv_bps m = of_int (bytes_recv n - bytes_recv (prev_net s)) / elapsed (time_now h) s"
    using assms(4-7) by (simp_all add: r byte_delta_mono)
  have "0 \<le> read_bps m \<and> 0 \<le> write_bps m \<and> 0 \<le> sent_bps m \<and> 0 \<le> recv_bps m"
    if "0 < elapsed (time_now h) s"
    using that assms(4-7) by (simp add: rates)
  with rates show ?thesis by blast
qed

theorem rates_of_nondecreasing_counters_witness:
  "fst (collect_metrics (ex_host 102) ex_monitor) =
     Inr \<lparr>cpu = 150, mem = - 3, proc_count = 3, read_bps = 250, write_bps = 0,
          sent_bps = 0, recv_bps = 500, timestamp = 102\<rparr>
   \<and> elapsed 102 ex_monitor = 2
   \<and> read_bps \<lparr>cpu = 150, mem = - 3, proc_count = 3, read_bps = 250, write_bps = 0,
          sent_bps = 0, recv_bps = 500, timestamp = 102\<rparr> = of_int (1500 - 1000) / 2"
proof -
  have r: "fst (collect_metrics (ex_host 102) ex_monitor) =
     Inr \<lparr>cpu = 150, mem = - 3, proc_count = 3, read_bps = 250, write_bps = 0,
          sent_bps = 0, recv_bps = 500, timestamp = 102\<rparr>"
    by (simp add: collect_metrics_def ex_host_def ex_monitor_def elapsed_def truediv_def
        byte_delta_def Let_def)
  have e: "elapsed 102 ex_monitor = 2"
    by (simp add: elapsed_def ex_monitor_def)
  from rates_of_nondecreasing_counters [OF r,
      of "\<lparr>read_bytes = 1500, write_bytes = 2000\<rparr>" "\<lparr>bytes_sent = 300, bytes_recv = 1400\<rparr>"]
  have "read_bps \<lparr>cpu = 150, mem = - 3, proc_count = 3, read_bps = 250, write_bps = 0,
          sent_bps = 0, recv_bps = 500, timestamp = 102\<rparr> = of_int (1500 - 1000) / 2"
    by (simp add: ex_host_def ex_monitor_def elapsed_def)
  with r e show ?thesis by blast
qed

text \<open>
  The elapsed time is not guarded against a clock that steps back: with the stored
  instant 100 and the clock at 98, counters that have grown give negative rates.
\<close>

theorem rates_negative_when_clock_steps_back:
  "read_bytes (prev_disk ex_monitor) \<le> 1500 \<and> write_bytes (prev_disk ex_monitor) \<le> 2000 \<and>
   bytes_sent (prev_net ex_monitor) \<le> 300 \<and> bytes_recv (prev_net ex_monitor) \<le> 1400 \<and>
   fst (collect_metrics (ex_host 98) ex_monitor) =
     Inr \<lparr>cpu = 150, mem = - 3, proc_count = 3, read_bps = - 250, write_bps = 0,
          sent_bps = 0, recv_bps = - 500, timestamp = 98\<rparr> \<and>
   read_bps \<lparr>cpu = 150, mem = - 3, proc_count = 3, read_bps = - 250, write_bps = 0,
          sent_bps = 0, recv_bps = - 500, timestamp = 98\<rparr> < 0"
  by (simp add: collect_metrics_def ex_host_def ex_monitor_def elapsed_def truediv_def
      byte_delta_def Let_def)

subsection \<open>Counter resets\<close>

text \<open>
  C2. A counter reading strictly below the stored one gives the byte delta 0 (a delta is
  never negative), and the rate that \<^verbatim>\<open>_collect_metrics\<close> returns for that counter is 0.
\<close>

theorem counter_reset_gives_zero_delta:
  "0 \<le> byte_delta cur prev \<and> (cur < prev \<longrightarrow> byte_delta cur prev = 0) \<and>
   (fst (collect_metrics h s) = Inr m \<longrightarrow>
    disk_io_counters h = Some d \<longrightarrow> net_io_counters h = Some n \<longrightarrow>
      (read_bytes d < read_bytes (prev_disk s) \<longrightarrow> read_bps m = 0) \<and>
      (write_bytes d < write_bytes (prev_disk s) \<longrightarrow> write_bps m = 0) \<and>
      (bytes_sent n < bytes_sent (prev_net s) \<longrightarrow> sent_bps m = 0) \<and>
      (bytes_recv n < bytes_recv (prev_net s) \<longrightarrow> recv_bps m = 0))"
proof -
  have "(read_bytes d < read_bytes (prev_disk s) \<longrightarrow> read_bps m = 0) \<and>
      (write_bytes d < write_bytes (prev_disk s) \<longrightarrow> write_bps m = 0) \<and>
      (bytes_sent n < bytes_sent (prev_net s) \<longrightarrow> sent_bps m = 0) \<and>
      (bytes_recv n < bytes_recv (prev_net s) \<longrightarrow> recv_bps m = 0)"
    if "fst (collect_metrics h s) = Inr m" "disk_io_counters h = Some d"
      "net_io_counters h = Some n"
    by (simp add: collect_metrics_rates [OF that] byte_delta_reset)
  then show ?thesis
    by (simp add: byte_delta_nonneg byte_delta_reset)
qed

theorem counter_reset_gives_zero_delta_witness:
  "(10::int) < 1000 \<and> byte_delta 10 1000 = 0 \<and>
   fst (collect_metrics ex_host_reset ex_monitor) =
     Inr \<lparr>cpu = 150, mem = - 3, proc_count = 3, read_bps = 0, write_bps = 300,
          sent_bps = 0, recv_bps = 0, timestamp = 102\<rparr> \<and>
   disk_io_counters ex_host_reset = Some \<lparr>read_bytes = 10, write_bytes = 2600\<rparr> \<and>
   read_bytes \<lparr>read_bytes = 10, write_bytes = 2600\<rparr> < read_bytes (prev_disk ex_monitor) \<and>
   read_bps \<lparr>cpu = 150, mem = - 3, proc_count = 3, read_bps = 0, write_bps = 300,
          sent_bps = 0, recv_bps = 0, timestamp = 102\<rparr> = 0"
proof -
  let ?m = "\<lparr>cpu = 150, mem = - 3, proc_count = 3, read_bps = 0, write_bps = 300,
          sent_bps = 0, recv_bps = 0, timestamp = 102::real\<rparr>"
  let ?d = "\<lparr>read_bytes = 10, write_bytes = 2600\<rparr>"
  let ?n = "\<lparr>bytes_sent = 0, bytes_recv = 20\<rparr>"
  have r: "fst (collect_metrics ex_host_reset ex_monitor) = Inr ?m"
    by (simp add: collect_metrics_def ex_host_reset_def ex_monitor_def elapsed_def truediv_def
        byte_delta_def Let_def)
  have d: "disk_io_counters ex_host_reset = Some ?d"
    and n: "net_io_counters ex_host_reset = Some ?n"
    and lt: "read_bytes ?d < read_bytes (prev_disk ex_monitor)"
    by (simp_all add: ex_host_reset_def ex_monitor_def)
  note inst = counter_reset_gives_zero_delta [of 10 1000 ex_host_reset ex_monitor ?m ?d ?n]
  from inst have z: "byte_delta 10 1000 = 0" by simp
  from inst r d n lt have "read_bps ?m = 0" by blast
  with z r d lt show ?thesis by simp
qed

subsection \<open>The elapsed time and the division\<close>

text \<open>
  C3 (as amended). The elapsed time is 1 second when the stored instant is zero (the
  only case the code substitutes), and it is \<open>now - prev_time\<close>, unchanged, otherwise. When the
  stored instant is zero or the clock has advanced past it, the elapsed time is positive
  and \<^verbatim>\<open>_collect_metrics\<close> does not raise \<^verbatim>\<open>ZeroDivisionError\<close>.
\<close>

theorem elapsed_and_division:
  "(prev_time s = 0 \<longrightarrow> elapsed (time_now h) s = 1)
   \<and> (prev_time s \<noteq> 0 \<longrightarrow> elapsed (time_now h) s = time_now h - prev_time s)
   \<and> (prev_time s = 0 \<or> prev_time s < time_now h \<longrightarrow>
        0 < elapsed (time_now h) s \<and> fst (collect_metrics h s) \<noteq> Inl ZeroDivisionError)"
proof -
  have "0 < elapsed (time_now h) s \<and> fst (collect_metrics h s) \<noteq> Inl ZeroDivisionError"
    if "prev_time s = 0 \<or> prev_time s < time_now h"
  proof -
    from that have pos: "0 < elapsed (time_now h) s"
      by (auto simp: elapsed_def)
    then have "fst (collect_metrics h s) \<noteq> Inl ZeroDivisionError"
      by (auto simp: collect_metrics_def Let_def truediv_def split: option.splits)
    with pos show ?thesis by simp
  qed
  then show ?thesis
    by (simp add: elapsed_def)
qed

theorem elapsed_and_division_witness:
  "prev_time ex_monitor \<noteq> 0 \<and> prev_time ex_monitor < time_now (ex_host 102)
   \<and> elapsed (time_now (ex_host 102)) ex_monitor = 2
   \<and> fst (collect_metrics (ex_host 102) ex_monitor) \<noteq> Inl ZeroDivisionError
   \<and> prev_time (ex_monitor\<lparr>prev_time := 0\<rparr>) = 0
   \<and> elapsed (time_now (ex_host 102)) (ex_monitor\<lparr>prev_time := 0\<rparr>) = 1
   \<and> elapsed (time_now (ex_host 98)) ex_monitor = - 2"
proof -
  have a: "prev_time ex_monitor \<noteq> 0" "prev_time ex_monitor < time_now (ex_host 102)"
    and b: "prev_time (ex_monitor\<lparr>prev_time := 0\<rparr>) = 0"
    by (simp_all add: ex_monitor_def ex_host_def)
  from elapsed_and_division [of ex_monitor "ex_host 102"] a
  have c: "elapsed (time_now (ex_host 102)) ex_monitor
        = time_now (ex_host 102) - prev_time ex_monitor
      \<and> fst (collect_metrics (ex_host 102) ex_monitor) \<noteq> Inl ZeroDivisionError"
    by blast
  from elapsed_and_division [of "ex_monitor\<lparr>prev_time := 0\<rparr>" "ex_host 102"] b
  have d: "elapsed (time_now (ex_host 102)) (ex_monitor\<lparr>prev_time := 0\<rparr>) = 1"
    by blast
  from elapsed_and_division [of ex_monitor "ex_host 98"] a
  have e: "elapsed (time_now (ex_host 98)) ex_monitor = time_now (ex_host 98) - prev_time ex_monitor"
    by blast
  from a b c d e show ?thesis
    by (simp add: ex_monitor_def ex_host_def)
qed

text \<open>
  The constructor stores the clock reading, so the first call does not see a zero
  instant: when the clock reads the same value again, the elapsed time is 0 and the first
  division raises. An elapsed time below zero is used as it is.
\<close>

theorem first_collect_divides_by_zero:
  "init_monitor (ex_host 100) = Inr ex_started \<and>
   elapsed (time_now (ex_host 100)) ex_started = 0 \<and>
   fst (collect_metrics (ex_host 100) ex_started) = Inl ZeroDivisionError \<and>
   elapsed (time_now (ex_host 98)) ex_started = - 2"
  by (simp add: init_monitor_def collect_metrics_def ex_host_def ex_started_def elapsed_def
      truediv_def Let_def)

subsection \<open>The state after a failed read\<close>

text \<open>
  C4 (as amended). When a host read fails in \<^verbatim>\<open>_collect_metrics\<close>, the CPU history and
  the stored network counters are as before the call; the stored instant has already been
  overwritten with the current clock reading; the stored disk counters are as before
  when the failing read is the CPU, memory, process or disk read, and hold the disk
  reading just taken when it is the network read.
\<close>

theorem state_after_failed_read:
  assumes "fst (collect_metrics h s) = Inl (HostError sub)"
  shows "cpu_history (snd (collect_metrics h s)) = cpu_history s
       \<and> prev_net (snd (collect_metrics h s)) = prev_net s
       \<and> prev_time (snd (collect_metrics h s)) = time_now h
       \<and> (sub \<noteq> Network \<longrightarrow> prev_disk (snd (collect_metrics h s)) = prev_disk s)
       \<and> (sub = Network \<longrightarrow> disk_io_counters h = Some (prev_disk (snd (collect_metrics h s))))"
  using assms
  by (auto simp: collect_metrics_def Let_def truediv_def split: option.splits if_splits)

theorem state_after_failed_read_witness:
  "fst (collect_metrics ((ex_host 101)\<lparr>cpu_percent := None\<rparr>) ex_monitor) = Inl (HostError Cpu)
   \<and> cpu_history (snd (collect_metrics ((ex_host 101)\<lparr>cpu_percent := None\<rparr>) ex_monitor))
       = \<lparr>items = [0, 0, 0], maxlen = 3\<rparr>
   \<and> prev_disk (snd (collect_metrics ((ex_host 101)\<lparr>cpu_percent := None\<rparr>) ex_monitor))
       = \<lparr>read_bytes = 1000, write_bytes = 2000\<rparr>
   \<and> prev_time (snd (collect_metrics ((ex_host 101)\<lparr>cpu_percent := None\<rparr>) ex_monitor)) = 101"
proof -
  have r: "fst (collect_metrics ((ex_host 101)\<lparr>cpu_percent := None\<rparr>) ex_monitor)
      = Inl (HostError Cpu)"
    by (simp add: collect_metrics_def ex_host_def Let_def)
  from state_after_failed_read [OF r] r show ?thesis
    by (simp add: ex_monitor_def ex_host_def)
qed

text \<open>
  A failing network read leaves a state that differs from the one before the call.
\<close>

theorem failed_network_read_changes_state:
  "fst (collect_metrics ((ex_host 101)\<lparr>net_io_counters := None\<rparr>) ex_monitor)
     = Inl (HostError Network) \<and>
   snd (collect_metrics ((ex_host 101)\<lparr>net_io_counters := None\<rparr>) ex_monitor)
     = ex_monitor\<lparr>prev_disk := \<lparr>read_bytes = 1500, write_bytes = 2000\<rparr>, prev_time := 101\<rparr> \<and>
   snd (collect_metrics ((ex_host 101)\<lparr>net_io_counters := None\<rparr>) ex_monitor) \<noteq> ex_monitor"
  by (simp add: collect_metrics_def ex_host_def ex_monitor_def elapsed_def truediv_def
      byte_delta_def Let_def)

subsection \<open>CPU and memory percentages\<close>

text \<open>
  C8. The CPU and memory percentages of a returned snapshot are the values the host
  reported, whatever they are: nothing clamps them to the range from 0 to 100.
\<close>

theorem percentages_as_reported:
  assumes "fst (collect_metrics h s) = Inr m"
  shows "cpu_percent h = Some (cpu m) \<and> virtual_memory_percent h = Some (mem m)"
  using assms by (auto elim!: collect_metrics_Inr)

theorem percentages_as_reported_witness:
  "fst (collect_metrics (ex_host 102) ex_monitor) =
     Inr \<lparr>cpu = 150, mem = - 3, proc_count = 3, read_bps = 250, write_bps = 0,
          sent_bps = 0, recv_bps = 500, timestamp = 102\<rparr>
   \<and> cpu_percent (ex_host 102) = Some 150
   \<and> virtual_memory_percent (ex_host 102) = Some (- 3)"
proof -
  let ?m = "\<lparr>cpu = 150, mem = - 3, proc_count = 3, read_bps = 250, write_bps = 0,
          sent_bps = 0, recv_bps = 500, timestamp = 102::real\<rparr>"
  have r: "fst (collect_metrics (ex_host 102) ex_monitor) = Inr ?m"
    by (simp add: collect_metrics_def ex_host_def ex_monitor_def elapsed_def truediv_def
        byte_delta_def Let_def)
  from percentages_as_reported [OF r]
  have "cpu_percent (ex_host 102) = Some 150 \<and> virtual_memory_percent (ex_host 102) = Some (- 3)"
    by simp
  with r show ?thesis by blast
qed

section \<open>Properties of the bounded history\<close>

lemma maxlen_deque_append [simp]: "maxlen (deque_append d x) = maxlen d"
  by (simp add: deque_append_def Let_def)

lemma maxlen_foldl_deque_append [simp]: "maxlen (foldl deque_append d vs) = maxlen d"
  by (induction vs arbitrary: d) simp_all

lemma items_append_room:
  "length (items d) < maxlen d \<Longrightarrow> items (deque_append d x) = items d @ [x]"
  by (simp add: deque_append_def Let_def)

lemma items_append_full:
  "length (items d) = maxlen d \<Longrightarrow> items (deque_append d x) = tl (items d @ [x])"
  by (simp add: deque_append_def Let_def)

lemma items_foldl_room:
  "length (items d) + length vs \<le> maxlen d \<Longrightarrow> items (foldl deque_append d vs) = items d @ vs"
proof (induction vs arbitrary: d)
  case Nil
  then show ?case by simp
next
  case (Cons v vs)
  then have "length (items d) < maxlen d" by simp
  then have step: "items (deque_append d v) = items d @ [v]"
    by (rule items_append_room)
  with Cons.prems have "length (items (deque_append d v)) + length vs \<le> maxlen (deque_append d v)"
    by simp
  from Cons.IH [OF this] step show ?case by simp
qed

lemma items_foldl_full:
  "length (items d) = maxlen d \<Longrightarrow>
     items (foldl deque_append d vs) = drop (length vs) (items d @ vs)"
proof (induction vs arbitrary: d)
  case Nil
  then show ?case by simp
next
  case (Cons v vs)
  from Cons.prems have step: "items (deque_append d v) = tl (items d @ [v])"
    by (rule items_append_full)
  with Cons.prems have "length (items (deque_append d v)) = maxlen (deque_append d v)"
    by simp
  from Cons.IH [OF this] have
    "items (foldl deque_append d (v # vs)) = drop (length vs) (tl (items d @ [v]) @ vs)"
    by (simp add: step)
  also have "tl (items d @ [v]) @ vs = tl (items d @ v # vs)"
    by (cases "items d") simp_all
  also have "drop (length vs) (tl (items d @ v # vs)) = drop (length (v # vs)) (items d @ v # vs)"
    by (simp only: length_Cons drop_Suc)
  finally show ?case .
qed

lemma deque_new_replicate:
  "deque_new (replicate n x) n = \<lparr>items = replicate n x, maxlen = n\<rparr>"
proof -
  have "items (deque_new (replicate n x) n) = replicate n x"
    unfolding deque_new_def by (subst items_foldl_room) simp_all
  moreover have "maxlen (deque_new (replicate n x) n) = n"
    by (simp add: deque_new_def)
  ultimately show ?thesis by simp
qed

text \<open>
  C5. A history built from \<open>N\<close> zeros with capacity \<open>N\<close> holds exactly \<open>N\<close> elements, all
  0 (the constructor uses \<open>N = 60\<close>); after \<open>N + k\<close> appends it holds exactly \<open>N\<close> elements,
  the last \<open>N\<close> appended values, oldest first.
\<close>

theorem rolling_history_keeps_last_N:
  "CPU_HISTORY_LEN = 60
   \<and> deque_new (replicate N (0::real)) N = \<lparr>items = replicate N 0, maxlen = N\<rparr>
   \<and> length (items (deque_new (replicate N (0::real)) N)) = N
   \<and> (\<forall>s. init_monitor h = Inr s \<longrightarrow>
        cpu_history s = \<lparr>items = replicate 60 0, maxlen = 60\<rparr>)
   \<and> (length vs = N + k \<longrightarrow>
        items (foldl deque_append (deque_new (replicate N (0::real)) N) vs) = drop k vs
        \<and> length (items (foldl deque_append (deque_new (replicate N (0::real)) N) vs)) = N)"
proof -
  let ?d = "deque_new (replicate N (0::real)) N"
  have new: "?d = \<lparr>items = replicate N 0, maxlen = N\<rparr>"
    by (rule deque_new_replicate)
  have init: "cpu_history s = \<lparr>items = replicate 60 0, maxlen = 60\<rparr>"
    if "init_monitor h = Inr s" for s
    using that
    by (auto simp: init_monitor_def CPU_HISTORY_LEN_def deque_new_replicate split: option.splits)
  have app: "items (foldl deque_append ?d vs) = drop k vs" if "length vs = N + k"
  proof -
    have "items (foldl deque_append ?d vs) = drop (length vs) (items ?d @ vs)"
      by (rule items_foldl_full) (simp add: new)
    with that show ?thesis by (simp add: new)
  qed
  from app have "length (items (foldl deque_append ?d vs)) = N" if "length vs = N + k"
    using that by simp
  with new init app show ?thesis
    by (simp add: CPU_HISTORY_LEN_def)
qed

theorem rolling_history_keeps_last_N_witness:
  "length [10, 20, 15, 30 :: real] = 3 + 1
   \<and> items (foldl deque_append (deque_new (replicate 3 0) 3) [10, 20, 15, 30 :: real])
       = [20, 15, 30]"
proof -
  have len: "length [10, 20, 15, 30 :: real] = 3 + 1" by simp
  from rolling_history_keeps_last_N [of 3 "ex_host 100" "[10, 20, 15, 30]" 1]
  have "length [10, 20, 15, 30 :: real] = 3 + 1 \<longrightarrow>
        items (foldl deque_append (deque_new (replicate 3 0) 3) [10, 20, 15, 30 :: real])
          = drop 1 [10, 20, 15, 30]"
    by blast
  with len show ?thesis by simp
qed

section \<open>Properties of the rate formatting\<close>

lemma round_half_even_near: "\<bar>of_int (round_half_even y) - y\<bar> \<le> 1 / 2"
proof -
  have "of_int \<lfloor>y\<rfloor> \<le> y" "y < of_int \<lfloor>y\<rfloor> + 1"
    by linarith+
  then show ?thesis
    unfolding round_half_even_def Let_def by (simp split: if_splits)
qed

lemma round_half_even_nonneg: "0 \<le> y \<Longrightarrow> 0 \<le> round_half_even y"
  unfolding round_half_even_def Let_def by simp

lemma round_half_even_odd_up:
  assumes "odd k" and "of_int k + 1 / 2 \<le> y" and "y < of_int k + 1"
  shows "round_half_even y = k + 1"
proof -
  from assms(2,3) have "\<lfloor>y\<rfloor> = k"
    by (intro floor_unique) linarith+
  with assms show ?thesis
    unfolding round_half_even_def Let_def by simp
qed

lemma format_f_0:
  "format_f 0 x = (if x < 0 then ''-'' else []) @ str_nat (nat (round_half_even \<bar>x\<bar>))"
  by (simp add: format_f_def)

lemma format_f_1:
  "format_f 1 x = (if x < 0 then ''-'' else [])
     @ str_nat (nat (round_half_even (\<bar>x\<bar> * 10)) div 10)
     @ ''.'' @ [digit_char (nat (round_half_even (\<bar>x\<bar> * 10)) mod 10)]"
  by (simp add: format_f_def Let_def)

lemma mod_100_mod_10: "(q mod 100) mod 10 = q mod (10::nat)"
  by (rule mod_mod_cancel) simp

lemma mod_100_split: "q mod 100 = 10 * (q div 10 mod 10) + q mod (10::nat)"
  using mod_mult2_eq [of q 10 10] by simp

lemma mod_100_div_10: "(q mod 100) div 10 = q div 10 mod (10::nat)"
  by (simp add: mod_100_split)

lemma frac_digits_two:
  "frac_digits 2 n = [digit_char (n div 10 mod 10), digit_char (n mod 10)]"
proof -
  have two: "(2::nat) = Suc (Suc 0)" by simp
  have "frac_digits (Suc (Suc 0)) n = [digit_char (n div 10 mod 10), digit_char (n mod 10)]"
    by (simp only: frac_digits.simps append_Nil append_Cons)
  then show ?thesis
    by (simp only: two)
qed

lemma frac_digits_2:
  "frac_digits 2 (q mod 100) = [digit_char (q div 10 mod 10), digit_char (q mod 10)]"
  by (simp only: frac_digits_two mod_100_div_10 mod_100_mod_10 mod_mod_trivial)

lemma format_f_2:
  "format_f 2 x = (if x < 0 then ''-'' else [])
     @ str_nat (nat (round_half_even (\<bar>x\<bar> * 100)) div 100)
     @ ''.'' @ [digit_char (nat (round_half_even (\<bar>x\<bar> * 100)) div 10 mod 10),
               digit_char (nat (round_half_even (\<bar>x\<bar> * 100)) mod 10)]"
  by (simp add: format_f_def Let_def frac_digits_2)

lemma format_bytes_B:
  assumes "0 \<le> x \<and> x < 1024"
  shows "format_bytes x = str_nat (nat (round_half_even x)) @ '' B/s''"
proof -
  from assms have c: "x < 1024" "\<not> x < 0" "\<bar>x\<bar> = x" by simp_all
  show ?thesis
    by (simp only: format_bytes_def format_f_0 c if_True if_False append_Nil)
qed

lemma format_bytes_KB:
  assumes "1024 \<le> x \<and> x < 1024 ^ 2"
  shows "format_bytes x =
        str_nat (nat (round_half_even (x / 1024 * 10)) div 10) @ ''.''
        @ [digit_char (nat (round_half_even (x / 1024 * 10)) mod 10)] @ '' KB/s''"
proof -
  from assms have c: "\<not> x < 1024" "x < 1024 ^ 2" "\<not> x / 1024 < 0" "\<bar>x / 1024\<bar> = x / 1024"
    by simp_all
  show ?thesis
    by (simp only: format_bytes_def format_f_1 c if_True if_False append_Nil append_assoc)
qed

lemma format_bytes_MB:
  assumes "1024 ^ 2 \<le> x"
  shows "format_bytes x =
        str_nat (nat (round_half_even (x / 1024 ^ 2 * 100)) div 100) @ ''.''
        @ [digit_char (nat (round_half_even (x / 1024 ^ 2 * 100)) div 10 mod 10),
           digit_char (nat (round_half_even (x / 1024 ^ 2 * 100)) mod 10)] @ '' MB/s''"
proof -
  from assms have c: "\<not> x < 1024" "\<not> x < 1024 ^ 2" "\<not> x / 1024 ^ 2 < 0"
    "\<bar>x / 1024 ^ 2\<bar> = x / 1024 ^ 2"
    by simp_all
  show ?thesis
    by (simp only: format_bytes_def format_f_2 c if_True if_False append_Nil append_assoc)
qed

lemmas format_eval = format_bytes_def format_f_def round_half_even_def digit_char_def
  str_nat.simps frac_digits_two Let_def

lemma format_bytes_examples:
  "format_bytes 0 = ''0 B/s''"
  "format_bytes 1023 = ''1023 B/s''"
  "format_bytes 1024 = ''1.0 KB/s''"
  "format_bytes 1536 = ''1.5 KB/s''"
  "format_bytes 1048576 = ''1.00 MB/s''"
  "format_bytes 2621440 = ''2.50 MB/s''"
  by (simp_all add: format_eval)

text \<open>
  C6. For a rate \<open>x \<ge> 0\<close>: below 1024 the result is \<open>x\<close> rounded to an integer, followed by
  \<^verbatim>\<open>B/s\<close>; from 1024 and below \<open>1024\<^sup>2\<close> it is \<open>x / 1024\<close> with exactly one digit after the
  point, followed by \<^verbatim>\<open>KB/s\<close>; from \<open>1024\<^sup>2\<close> on it is \<open>x / 1024\<^sup>2\<close> with exactly two digits
  after the point, followed by \<^verbatim>\<open>MB/s\<close>. The rounding is to the nearest value, and the six
  values of the specification come out as stated.
\<close>

theorem format_bytes_table:
  "(0 \<le> x \<and> x < 1024 \<longrightarrow>
      format_bytes x = str_nat (nat (round_half_even x)) @ '' B/s'')
   \<and> (1024 \<le> x \<and> x < 1024 ^ 2 \<longrightarrow>
      format_bytes x =
        str_nat (nat (round_half_even (x / 1024 * 10)) div 10) @ ''.''
        @ [digit_char (nat (round_half_even (x / 1024 * 10)) mod 10)] @ '' KB/s'')
   \<and> (1024 ^ 2 \<le> x \<longrightarrow>
      format_bytes x =
        str_nat (nat (round_half_even (x / 1024 ^ 2 * 100)) div 100) @ ''.''
        @ [digit_char (nat (round_half_even (x / 1024 ^ 2 * 100)) div 10 mod 10),
           digit_char (nat (round_half_even (x / 1024 ^ 2 * 100)) mod 10)] @ '' MB/s'')
   \<and> \<bar>of_int (round_half_even x) - x\<bar> \<le> 1 / 2
   \<and> format_bytes 0 = ''0 B/s''
   \<and> format_bytes 1023 = ''1023 B/s''
   \<and> format_bytes 1024 = ''1.0 KB/s''
   \<and> format_bytes 1536 = ''1.5 KB/s''
   \<and> format_bytes 1048576 = ''1.00 MB/s''
   \<and> format_bytes 2621440 = ''2.50 MB/s''"
  by (intro conjI impI format_bytes_B format_bytes_KB format_bytes_MB
      round_half_even_near format_bytes_examples) simp_all

theorem format_bytes_table_witness:
  "(1024::real) \<le> 1740.8 \<and> (1740.8::real) < 1024 ^ 2 \<and> format_bytes 1740.8 = ''1.7 KB/s''"
proof -
  have h: "(1024::real) \<le> 1740.8 \<and> (1740.8::real) < 1024 ^ 2" by simp
  have "format_bytes 1740.8 =
        str_nat (nat (round_half_even (1740.8 / 1024 * 10)) div 10) @ ''.''
        @ [digit_char (nat (round_half_even (1740.8 / 1024 * 10)) mod 10)] @ '' KB/s''"
    using format_bytes_table [of "1740.8", THEN conjunct2, THEN conjunct1] h
    by (rule mp)
  then have "format_bytes 1740.8 = ''1.7 KB/s''"
    by (simp add: round_half_even_def digit_char_def str_nat.simps Let_def)
  with h show ?thesis by simp
qed

text \<open>
  C9. The displayed value is rounded, not truncated: every rate from 1023.5 and below
  1024 is shown as \<^verbatim>\<open>1024 B/s\<close>, and every rate from \<open>1023.95 * 1024\<close> and below \<open>1024\<^sup>2\<close> is
  shown as \<^verbatim>\<open>1024.0 KB/s\<close>.
\<close>

theorem format_bytes_rounds_up_to_threshold:
  "(1023.5 \<le> x \<and> x < 1024 \<longrightarrow> format_bytes x = ''1024 B/s'')
   \<and> (1023.95 * 1024 \<le> x \<and> x < 1024 ^ 2 \<longrightarrow> format_bytes x = ''1024.0 KB/s'')"
proof (intro conjI impI)
  assume a: "1023.5 \<le> x \<and> x < 1024"
  then have "round_half_even x = 1023 + 1"
    by (intro round_half_even_odd_up) simp_all
  moreover from a have "0 \<le> x \<and> x < 1024" by simp
  ultimately show "format_bytes x = ''1024 B/s''"
    by (simp add: format_bytes_B str_nat.simps digit_char_def)
next
  assume a: "1023.95 * 1024 \<le> x \<and> x < 1024 ^ 2"
  then have "round_half_even (x / 1024 * 10) = 10239 + 1"
    by (intro round_half_even_odd_up) simp_all
  moreover from a have "1024 \<le> x \<and> x < 1024 ^ 2" by simp
  ultimately show "format_bytes x = ''1024.0 KB/s''"
    by (simp add: format_bytes_KB str_nat.simps digit_char_def)
qed

theorem format_bytes_rounds_up_to_threshold_witness:
  "(1023.5::real) \<le> 1023.75 \<and> (1023.75::real) < 1024 \<and> format_bytes 1023.75 = ''1024 B/s''
   \<and> (1023.95 * 1024 :: real) \<le> 1048575 \<and> (1048575::real) < 1024 ^ 2
   \<and> format_bytes 1048575 = ''1024.0 KB/s''"
proof -
  have h1: "(1023.5::real) \<le> 1023.75 \<and> (1023.75::real) < 1024" by simp
  have h2: "(1023.95 * 1024 :: real) \<le> 1048575 \<and> (1048575::real) < 1024 ^ 2" by simp
  have "format_bytes 1023.75 = ''1024 B/s''"
    using format_bytes_rounds_up_to_threshold [of "1023.75", THEN conjunct1] h1 by (rule mp)
  moreover have "format_bytes 1048575 = ''1024.0 KB/s''"
    using format_bytes_rounds_up_to_threshold [of 1048575, THEN conjunct2] h2 by (rule mp)
  ultimately show ?thesis using h1 h2 by simp
qed

text \<open>
  C10. Every rate below 1024, negative ones included, takes the first branch: the
  result is the sign, the magnitude rounded to an integer and the unit \<^verbatim>\<open>B/s\<close>; the rate
  \<open>-2048\<close> gives \<^verbatim>\<open>-2048 B/s\<close>. The function is total, so no input raises.
\<close>

theorem format_bytes_below_1024:
  "(x < 1024 \<longrightarrow>
      format_bytes x =
        (if x < 0 then ''-'' else []) @ str_nat (nat (round_half_even \<bar>x\<bar>)) @ '' B/s'')
   \<and> format_bytes (- 2048) = ''-2048 B/s''"
proof (intro conjI impI)
  assume "x < 1024"
  then show "format_bytes x =
        (if x < 0 then ''-'' else []) @ str_nat (nat (round_half_even \<bar>x\<bar>)) @ '' B/s''"
    by (simp only: format_bytes_def format_f_0 if_True append_assoc)
next
  show "format_bytes (- 2048) = ''-2048 B/s''"
    by (simp add: format_eval)
qed

theorem format_bytes_below_1024_witness:
  "(- 3.5 :: real) < 1024 \<and> format_bytes (- 3.5) = ''-4 B/s''
   \<and> (- 0.4 :: real) < 1024 \<and> format_bytes (- 0.4) = ''-0 B/s''"
proof -
  have h1: "(- 3.5 :: real) < 1024" and h2: "(- 0.4 :: real) < 1024" by simp_all
  have "format_bytes (- 3.5) =
        (if (- 3.5 :: real) < 0 then ''-'' else []) @ str_nat (nat (round_half_even \<bar>- 3.5\<bar>)) @ '' B/s''"
    using format_bytes_below_1024 [of "- 3.5", THEN conjunct1] h1 by (rule mp)
  then have a: "format_bytes (- 3.5) = ''-4 B/s''"
    by (simp add: round_half_even_def digit_char_def str_nat.simps Let_def)
  have "format_bytes (- 0.4) =
        (if (- 0.4 :: real) < 0 then ''-'' else []) @ str_nat (nat (round_half_even \<bar>- 0.4\<bar>)) @ '' B/s''"
    using format_bytes_below_1024 [of "- 0.4", THEN conjunct1] h2 by (rule mp)
  then have b: "format_bytes (- 0.4) = ''-0 B/s''"
    by (simp add: round_half_even_def digit_char_def str_nat.simps Let_def)
  from a b h1 h2 show ?thesis by simp
qed

section \<open>Properties of the periodic update\<close>

lemma collect_metrics_raises_Exception:
  "fst (collect_metrics h s) = Inl e \<Longrightarrow> is_Exception e"
  by (auto simp: collect_metrics_def Let_def truediv_def split: option.splits if_splits)

lemma widget_steps_keep:
  assumes "f \<in> set (widget_steps txt m mpl)"
  shows "after_queue (f a) = after_queue a" and "console (f a) = console a"
  using assms by (auto simp: widget_steps_def split: if_splits)

lemma fold_steps_keep:
  assumes "set fs \<subseteq> set (widget_steps txt m mpl)"
  shows "after_queue (fold (\<lambda>f. f) fs a) = after_queue a
       \<and> console (fold (\<lambda>f. f) fs a) = console a"
  using assms
proof (induction fs arbitrary: a)
  case Nil
  then show ?case by simp
next
  case (Cons f fs)
  then have "f \<in> set (widget_steps txt m mpl)" and "set fs \<subseteq> set (widget_steps txt m mpl)"
    by simp_all
  with Cons.IH [of "f a"] show ?case
    by (simp add: widget_steps_keep)
qed

lemma update_widgets_keeps:
  "after_queue (snd (update_widgets fault txt m a)) = after_queue a
   \<and> console (snd (update_widgets fault txt m a)) = console a"
proof -
  let ?steps = "widget_steps txt m (matplotlib_available a)"
  have all: "after_queue (fold (\<lambda>f. f) ?steps a) = after_queue a
       \<and> console (fold (\<lambda>f. f) ?steps a) = console a"
    by (rule fold_steps_keep [OF order_refl])
  have part: "after_queue (fold (\<lambda>f. f) (take k ?steps) a) = after_queue a
       \<and> console (fold (\<lambda>f. f) (take k ?steps) a) = console a" for k
    by (rule fold_steps_keep [OF set_take_subset])
  show ?thesis
  proof (cases fault)
    case None
    with all show ?thesis by (simp add: update_widgets_def Let_def)
  next
    case (Some ke)
    obtain k e where "ke = (k, e)" by (cases ke)
    with Some all part [of k] show ?thesis
      by (simp add: update_widgets_def Let_def)
  qed
qed

lemma update_widgets_raises:
  "fst (update_widgets fault txt m a) = Some e \<longleftrightarrow>
     (\<exists>k. fault = Some (k, e) \<and> k < length (widget_steps txt m (matplotlib_available a)))"
  by (auto simp: update_widgets_def Let_def split: option.splits prod.splits)

text \<open>
  A statement that raises leaves the changes of the statements before it: with the fifth
  statement raising, the first four variables are set and the others are as before.
\<close>

lemma update_widgets_partial_example:
  "fst (update_widgets (Some (4, TclError)) ''t''
         \<lparr>cpu = 12.34, mem = 50, proc_count = 7, read_bps = 1536, write_bps = 2048,
          sent_bps = 0, recv_bps = 0, timestamp = 101\<rparr> ex_app) = Some TclError
   \<and> cpu_percent_var (snd (update_widgets (Some (4, TclError)) ''t''
         \<lparr>cpu = 12.34, mem = 50, proc_count = 7, read_bps = 1536, write_bps = 2048,
          sent_bps = 0, recv_bps = 0, timestamp = 101\<rparr> ex_app)) = 12.3
   \<and> disk_read_var (snd (update_widgets (Some (4, TclError)) ''t''
         \<lparr>cpu = 12.34, mem = 50, proc_count = 7, read_bps = 1536, write_bps = 2048,
          sent_bps = 0, recv_bps = 0, timestamp = 101\<rparr> ex_app)) = ''1.5 KB/s''
   \<and> disk_write_var (snd (update_widgets (Some (4, TclError)) ''t''
         \<lparr>cpu = 12.34, mem = 50, proc_count = 7, read_bps = 1536, write_bps = 2048,
          sent_bps = 0, recv_bps = 0, timestamp = 101\<rparr> ex_app)) = ''0 B/s''"
  by (simp add: update_widgets_def widget_steps_def ex_app_def py_round_def format_eval)

lemma after_queue_register_after [simp]:
  "after_queue (register_after a) = after_queue a @ [UPDATE_INTERVAL_MS]"
  by (simp add: register_after_def)

lemma console_register_after [simp]: "console (register_after a) = console a"
  by (simp add: register_after_def)

lemma schedule_update_handled:
  assumes "handled t"
  shows "fst (schedule_update t a) = None
       \<and> after_queue (snd (schedule_update t a)) = after_queue a @ [UPDATE_INTERVAL_MS]"
proof -
  obtain r s' where c: "collect_metrics (tick_host t) (mon a) = (r, s')"
    by (cases "collect_metrics (tick_host t) (mon a)")
  from assms have p: "print_fault t = None"
    by (simp add: handled_def)
  show ?thesis
  proof (cases r)
    case (Inl e)
    with c have "is_Exception e"
      using collect_metrics_raises_Exception [of "tick_host t" "mon a" e] by simp
    with c Inl p show ?thesis
      by (simp add: schedule_update_def)
  next
    case (Inr m)
    obtain x a2 where u:
      "update_widgets (tk_fault t) (strftime_text t) m (a\<lparr>mon := s'\<rparr>) = (x, a2)"
      by (cases "update_widgets (tk_fault t) (strftime_text t) m (a\<lparr>mon := s'\<rparr>)")
    from update_widgets_keeps [of "tk_fault t" "strftime_text t" m "a\<lparr>mon := s'\<rparr>"] u
    have q: "after_queue a2 = after_queue a" by simp
    have e: "is_Exception e" if "x = Some e" for e
    proof -
      from that u
      have "fst (update_widgets (tk_fault t) (strftime_text t) m (a\<lparr>mon := s'\<rparr>)) = Some e"
        by simp
      then obtain k where "tk_fault t = Some (k, e)"
        by (auto simp: update_widgets_raises)
      with assms show ?thesis by (simp add: handled_def)
    qed
    show ?thesis
    proof (cases x)
      case None
      with c Inr u q show ?thesis by (simp add: schedule_update_def)
    next
      case (Some e')
      with e have "is_Exception e'" by simp
      with c Inr u q p Some show ?thesis by (simp add: schedule_update_def)
    qed
  qed
qed

lemma console_collect_failure:
  assumes "fst (collect_metrics (tick_host t) (mon a)) = Inl e" and "print_fault t = None"
  shows "console (snd (schedule_update t a)) = console a @ [e]"
proof -
  from assms(1) have "is_Exception e"
    by (rule collect_metrics_raises_Exception)
  with assms show ?thesis
    by (auto simp: schedule_update_def split: prod.splits)
qed

lemma console_widget_failure:
  assumes "fst (collect_metrics (tick_host t) (mon a)) = Inr m"
    and "tk_fault t = Some (k, e)"
    and "k < length (widget_steps (strftime_text t) m (matplotlib_available a))"
    and "is_Exception e" and "print_fault t = None"
  shows "console (snd (schedule_update t a)) = console a @ [e]"
proof -
  obtain r s' where c: "collect_metrics (tick_host t) (mon a) = (r, s')"
    by (cases "collect_metrics (tick_host t) (mon a)")
  with assms(1) have r: "r = Inr m" by simp
  obtain x a2 where u:
    "update_widgets (tk_fault t) (strftime_text t) m (a\<lparr>mon := s'\<rparr>) = (x, a2)"
    by (cases "update_widgets (tk_fault t) (strftime_text t) m (a\<lparr>mon := s'\<rparr>)")
  from assms(2,3) have "fst (update_widgets (tk_fault t) (strftime_text t) m (a\<lparr>mon := s'\<rparr>)) = Some e"
    by (simp add: update_widgets_raises)
  with u have x: "x = Some e" by simp
  from update_widgets_keeps [of "tk_fault t" "strftime_text t" m "a\<lparr>mon := s'\<rparr>"] u
  have "console a2 = console a" by simp
  with c r u x assms(4,5) show ?thesis
    by (simp add: schedule_update_def)
qed

lemma mainloop_handled:
  assumes "\<forall>t \<in> set ts. handled t" and "after_queue a \<noteq> []"
  shows "mainloop ts a = (length ts, foldl turn a ts) \<and> after_queue (foldl turn a ts) \<noteq> []"
  using assms
proof (induction ts arbitrary: a)
  case Nil
  then show ?case by simp
next
  case (Cons t ts)
  from Cons.prems obtain d ds where q: "after_queue a = d # ds"
    by (cases "after_queue a") auto
  from Cons.prems have h: "handled t" by simp
  let ?b = "a\<lparr>after_queue := ds\<rparr>"
  obtain x a' where s: "schedule_update t ?b = (x, a')"
    by (cases "schedule_update t ?b")
  from schedule_update_handled [OF h, of ?b] s
  have x: "x = None" and a': "after_queue a' = ds @ [UPDATE_INTERVAL_MS]"
    by simp_all
  from s q have tn: "turn a t = a'"
    by (simp add: turn_def)
  from a' have "after_queue a' \<noteq> []" by simp
  with Cons.prems Cons.IH [of a']
  have "mainloop ts a' = (length ts, foldl turn a' ts) \<and> after_queue (foldl turn a' ts) \<noteq> []"
    by simp
  with q s x tn show ?case by simp
qed

text \<open>
  C7 (as amended). When the collection or the widget update raises an exception of
  class \<^verbatim>\<open>Exception\<close> and the \<^verbatim>\<open>print\<close> of the handler succeeds, the exception is caught and
  printed, and the run of \<^verbatim>\<open>_schedule_update\<close> registers the next run after
  \<^verbatim>\<open>UPDATE_INTERVAL_MS\<close> (1000 ms), as a run without a failure does. Hence the event loop,
  started with a run registered and given ticks that fail in this way only, performs one
  run for each tick, each run acting as \<^const>\<open>turn\<close> says, and still has a run registered
  afterwards.
\<close>

theorem handled_tick_keeps_the_loop_running:
  "(handled t \<longrightarrow>
      fst (schedule_update t a) = None
      \<and> after_queue (snd (schedule_update t a)) = after_queue a @ [UPDATE_INTERVAL_MS])
   \<and> UPDATE_INTERVAL_MS = 1000
   \<and> (fst (collect_metrics (tick_host t) (mon a)) = Inl e \<and> print_fault t = None \<longrightarrow>
        console (snd (schedule_update t a)) = console a @ [e])
   \<and> (fst (collect_metrics (tick_host t) (mon a)) = Inr m \<and> tk_fault t = Some (k, e)
        \<and> k < length (widget_steps (strftime_text t) m (matplotlib_available a))
        \<and> is_Exception e \<and> print_fault t = None \<longrightarrow>
        console (snd (schedule_update t a)) = console a @ [e])
   \<and> ((\<forall>t \<in> set ts. handled t) \<and> after_queue a \<noteq> [] \<longrightarrow>
        mainloop ts a = (length ts, foldl turn a ts)
        \<and> after_queue (foldl turn a ts) \<noteq> [])"
proof (intro conjI impI)
  show "UPDATE_INTERVAL_MS = 1000"
    by (rule UPDATE_INTERVAL_MS_def)
qed (simp_all add: schedule_update_handled console_collect_failure console_widget_failure
    mainloop_handled)

lemma ex_ticks_handled: "\<forall>t \<in> set ex_ticks. handled t"
  by (simp add: ex_ticks_def ex_tick_def handled_def)

theorem handled_tick_keeps_the_loop_running_witness:
  "handled (ex_ticks ! 0) \<and> handled (ex_ticks ! 1) \<and> handled (ex_ticks ! 2)
   \<and> handled (ex_ticks ! 3) \<and> handled (ex_ticks ! 4) \<and> length ex_ticks = 5
   \<and> after_queue ex_app \<noteq> []
   \<and> fst (mainloop ex_ticks ex_app) = 5
   \<and> snd (mainloop ex_ticks ex_app) = foldl turn ex_app ex_ticks
   \<and> after_queue (snd (mainloop ex_ticks ex_app)) \<noteq> []
   \<and> fst (collect_metrics (tick_host (ex_ticks ! 2)) (mon ex_app)) = Inl (HostError Cpu)
   \<and> console (snd (schedule_update (ex_ticks ! 2) ex_app)) = [HostError Cpu]
   \<and> after_queue (snd (schedule_update (ex_ticks ! 2) ex_app)) = [1000, 1000]"
proof -
  let ?t = "ex_ticks ! 2"
  let ?m = "\<lparr>cpu = 0, mem = 0, proc_count = 0, read_bps = 0, write_bps = 0, sent_bps = 0,
        recv_bps = 0, timestamp = 0 :: real\<rparr>"
  have q: "after_queue ex_app \<noteq> []"
    by (simp add: ex_app_def)
  have h: "handled ?t"
    by (simp add: ex_ticks_def ex_tick_def handled_def)
  have p: "print_fault ?t = None"
    by (simp add: ex_ticks_def ex_tick_def)
  have f: "fst (collect_metrics (tick_host ?t) (mon ex_app)) = Inl (HostError Cpu)"
    by (simp add: ex_ticks_def ex_tick_def ex_app_def ex_host_def collect_metrics_def Let_def)
  note inst = handled_tick_keeps_the_loop_running [of ?t ex_app "HostError Cpu" ?m 0 ex_ticks]
  from inst h have a: "after_queue (snd (schedule_update ?t ex_app))
      = after_queue ex_app @ [UPDATE_INTERVAL_MS]"
    by blast
  from inst f p have c: "console (snd (schedule_update ?t ex_app)) = console ex_app @ [HostError Cpu]"
    by blast
  from inst ex_ticks_handled q
  have l: "mainloop ex_ticks ex_app = (length ex_ticks, foldl turn ex_app ex_ticks)
      \<and> after_queue (foldl turn ex_app ex_ticks) \<noteq> []"
    by blast
  have n: "length ex_ticks = 5" by (simp add: ex_ticks_def)
  have hs: "handled (ex_ticks ! 0) \<and> handled (ex_ticks ! 1) \<and> handled (ex_ticks ! 2)
      \<and> handled (ex_ticks ! 3) \<and> handled (ex_ticks ! 4)"
    by (simp add: ex_ticks_def ex_tick_def handled_def)
  from hs q f a c l n show ?thesis
    by (simp add: ex_app_def UPDATE_INTERVAL_MS_def)
qed

text \<open>
  A failed tick can end the loop. When the CPU read fails and the \<^verbatim>\<open>print\<close> of the handler
  raises, the exception of the \<^verbatim>\<open>print\<close> leaves \<^verbatim>\<open>_schedule_update\<close> before \<^verbatim>\<open>root.after\<close>;
  when the widget update raises \<^verbatim>\<open>KeyboardInterrupt\<close>, the handler does not catch it. In both
  cases nothing is registered, and of three ticks the loop runs one.
\<close>

theorem failed_tick_ends_the_loop:
  "fst (collect_metrics (tick_host ex_tick_print_fails) (mon ex_app)) = Inl (HostError Cpu)
   \<and> fst (schedule_update ex_tick_print_fails ex_app) = Some UnicodeEncodeError
   \<and> after_queue (snd (schedule_update ex_tick_print_fails ex_app)) = after_queue ex_app
   \<and> fst (mainloop [ex_tick_print_fails, ex_tick 102, ex_tick 103] ex_app) = 1
   \<and> after_queue (snd (mainloop [ex_tick_print_fails, ex_tick 102, ex_tick 103] ex_app)) = []
   \<and> fst (schedule_update ex_tick_interrupted ex_app) = Some KeyboardInterrupt
   \<and> after_queue (snd (schedule_update ex_tick_interrupted ex_app)) = after_queue ex_app
   \<and> fst (mainloop [ex_tick_interrupted, ex_tick 102, ex_tick 103] ex_app) = 1
   \<and> after_queue (snd (mainloop [ex_tick_interrupted, ex_tick 102, ex_tick 103] ex_app)) = []"
proof -
  have c: "collect_metrics (tick_host ex_tick_print_fails) ex_monitor
      = (Inl (HostError Cpu), ex_monitor\<lparr>prev_time := 101\<rparr>)"
    by (simp add: ex_tick_print_fails_def ex_tick_def ex_host_def collect_metrics_def Let_def)
  have s1: "schedule_update ex_tick_print_fails (ex_app\<lparr>after_queue := q\<rparr>)
      = (Some UnicodeEncodeError, ex_app\<lparr>after_queue := q, mon := ex_monitor\<lparr>prev_time := 101\<rparr>\<rparr>)"
    for q
    using c by (simp add: schedule_update_def ex_app_def ex_tick_print_fails_def ex_tick_def)
  have i: "fst (schedule_update ex_tick_interrupted (ex_app\<lparr>after_queue := q\<rparr>))
        = Some KeyboardInterrupt
      \<and> after_queue (snd (schedule_update ex_tick_interrupted (ex_app\<lparr>after_queue := q\<rparr>))) = q"
    for q
    by (simp add: schedule_update_def update_widgets_def widget_steps_def ex_app_def
        ex_tick_interrupted_def ex_tick_def ex_host_def ex_monitor_def collect_metrics_def
        elapsed_def truediv_def byte_delta_def Let_def)
  have e: "ex_app\<lparr>after_queue := after_queue ex_app\<rparr> = ex_app" by simp
  have l1: "fst (mainloop [ex_tick_print_fails, ex_tick 102, ex_tick 103] ex_app) = 1
      \<and> after_queue (snd (mainloop [ex_tick_print_fails, ex_tick 102, ex_tick 103] ex_app)) = []"
    using s1 [of "[]"] by (simp add: ex_app_def UPDATE_INTERVAL_MS_def)
  obtain x a' where s2: "schedule_update ex_tick_interrupted (ex_app\<lparr>after_queue := []\<rparr>) = (x, a')"
    by (cases "schedule_update ex_tick_interrupted (ex_app\<lparr>after_queue := []\<rparr>)")
  with i [of "[]"] have "x = Some KeyboardInterrupt" and "after_queue a' = []"
    by simp_all
  with s2 have l2: "fst (mainloop [ex_tick_interrupted, ex_tick 102, ex_tick 103] ex_app) = 1
      \<and> after_queue (snd (mainloop [ex_tick_interrupted, ex_tick 102, ex_tick 103] ex_app)) = []"
    by (simp add: ex_app_def UPDATE_INTERVAL_MS_def)
  from c s1 [of "after_queue ex_app"] i [of "after_queue ex_app"] l1 l2 show ?thesis
    by (simp add: e) (simp add: ex_app_def)
qed

end
